theory Spec2Isabelle
  imports Complex_Main "HOL-Library.Word"
begin

section \<open>Z-Image front end: store, push channel and generation guard\<close>

text \<open>
  A shallow embedding of the client-side state handling of the Z-Image front end:
  the zustand store (\<^verbatim>\<open>store.ts\<close>), the \<^verbatim>\<open>useWebSocket\<close> hook, the message
  dispatch of \<^verbatim>\<open>App.tsx\<close> and the generate handler of \<^verbatim>\<open>GeneratePage.tsx\<close>.
  Each store action is a function from the store to the updated store; each event handler
  of the hook is a function on the hook's refs and on the browser objects it touches.
\<close>

subsection \<open>JavaScript values\<close>

text \<open>
  A JavaScript string is a sequence of UTF-16 code units. \<open>utf16\<close> writes an ASCII
  literal as such a sequence.
\<close>

type_synonym js_string = "16 word list"

definition utf16 :: "string \<Rightarrow> js_string" where
  "utf16 s = map of_char s"

text \<open>
  Truthiness of a value of type \<^verbatim>\<open>string | null | undefined\<close>: \<^verbatim>\<open>null\<close>,
  \<^verbatim>\<open>undefined\<close> (both \<open>None\<close>) and the empty string are falsy.
\<close>

definition truthy :: "js_string option \<Rightarrow> bool" where
  "truthy v = (case v of None \<Rightarrow> False | Some s \<Rightarrow> s \<noteq> [])"

text \<open>\<^verbatim>\<open>a || b\<close> on such values.\<close>

definition js_or :: "js_string option \<Rightarrow> js_string option \<Rightarrow> js_string option" where
  "js_or a b = (if truthy a then a else b)"

text \<open>\<^verbatim>\<open>a ?? b\<close>: \<open>b\<close> exactly when \<open>a\<close> is \<^verbatim>\<open>null\<close> or \<^verbatim>\<open>undefined\<close>.\<close>

definition nullish :: "'a option \<Rightarrow> 'a option \<Rightarrow> 'a option" where
  "nullish a b = (case a of None \<Rightarrow> b | Some x \<Rightarrow> Some x)"

text \<open>
  \<^verbatim>\<open>String.prototype.trim\<close> removes leading and trailing white space and line
  terminators (ECMAScript \<^verbatim>\<open>WhiteSpace\<close> and \<^verbatim>\<open>LineTerminator\<close>), all of which are
  single code units.
\<close>

definition isWhiteSpace :: "16 word \<Rightarrow> bool" where
  "isWhiteSpace c =
     (c \<in> {0x09, 0x0A, 0x0B, 0x0C, 0x0D, 0x20, 0xA0, 0x1680, 0x2028, 0x2029,
            0x202F, 0x205F, 0x3000, 0xFEFF}
      \<or> (0x2000 \<le> c \<and> c \<le> 0x200A))"

definition trim :: "js_string \<Rightarrow> js_string" where
  "trim s = rev (dropWhile isWhiteSpace (rev (dropWhile isWhiteSpace s)))"

subsection \<open>Types (\<^verbatim>\<open>types.ts\<close>)\<close>

text \<open>
  The constructors stand for the string literals \<^verbatim>\<open>"not_downloaded"\<close>,
  \<^verbatim>\<open>"downloading"\<close>, \<^verbatim>\<open>"downloaded"\<close>, \<^verbatim>\<open>"loading"\<close>, \<^verbatim>\<open>"ready"\<close> and
  \<^verbatim>\<open>"error"\<close>. Numbers that are only carried along are \<open>int\<close> where the source
  counts and \<open>real\<close> otherwise.
\<close>

datatype ModelState = NotDownloaded | Downloading | Downloaded | Loading | Ready | Error

record DownloadProgress =
  total_size :: int
  downloaded_size :: int
  current_file :: js_string
  files_completed :: int
  total_files :: int
  speed :: real
  eta :: real
  percent :: real

text \<open>The field \<^verbatim>\<open>id\<close> is \<open>id'\<close> here.\<close>

record Model =
  id' :: js_string
  name :: js_string
  description :: js_string
  recommended_steps :: int
  recommended_guidance :: real
  size_gb :: real
  state :: ModelState
  progress :: "DownloadProgress option"
  error :: "js_string option"
  is_current :: bool

record GpuInfo =
  gpu_name :: js_string
  memory_total :: real
  memory_allocated :: real
  memory_cached :: real

record SystemInfo =
  device :: js_string
  cuda_available :: bool
  mps_available :: bool
  gpu_info :: "GpuInfo option"
  torch_version :: js_string

text \<open>
  The seed field of the page is a text; a request carries \<^verbatim>\<open>parseInt(seed)\<close>, kept
  here as the unevaluated call.
\<close>

datatype seed_value = ParseInt js_string

record GenerationRequest =
  prompt :: js_string
  model_id :: js_string
  width :: int
  height :: int
  num_inference_steps :: int
  guidance_scale :: real
  seed :: "seed_value option"
  negative_prompt :: "js_string option"

text \<open>Fields of \<^verbatim>\<open>GeneratedImage\<close> that share a name with a request field carry \<open>img_\<close>.\<close>

record GeneratedImage =
  image_id :: js_string
  image_url :: js_string
  image_base64 :: "js_string option"
  img_prompt :: js_string
  img_model_id :: js_string
  img_width :: int
  img_height :: int
  img_seed :: int
  generation_time :: real

text \<open>
  The push-channel messages, by their \<^verbatim>\<open>type\<close> tag. Only \<^verbatim>\<open>model_status\<close> has fields
  that the dispatch reads; \<open>Unknown\<close> carries any other tag.
\<close>

datatype WebSocketMessage =
    InitialState
  | ModelStatus js_string ModelState "DownloadProgress option" "js_string option"
  | GenerationStart
  | GenerationComplete
  | GenerationError
  | Heartbeat
  | Pong
  | Unknown js_string

datatype AppView = InitView | GenerateView | GalleryView

subsection \<open>The store (\<^verbatim>\<open>store.ts\<close>)\<close>

record AppState =
  systemInfo :: "SystemInfo option"
  isConnected :: bool
  connectionError :: "js_string option"
  models :: "Model list"
  selectedModelId :: "js_string option"
  isGenerating :: bool
  generatedImages :: "GeneratedImage list"
  currentPrompt :: js_string
  generationError :: "js_string option"
  currentView :: AppView

definition initialState :: AppState where
  "initialState =
     \<lparr> systemInfo = None, isConnected = False, connectionError = None, models = [],
       selectedModelId = None, isGenerating = False, generatedImages = [],
       currentPrompt = [], generationError = None, currentView = InitView \<rparr>"

definition setSystemInfo :: "SystemInfo \<Rightarrow> AppState \<Rightarrow> AppState" where
  "setSystemInfo info s = s\<lparr>systemInfo := Some info\<rparr>"

text \<open>The parameter \<^verbatim>\<open>error\<close> defaults to \<^verbatim>\<open>null\<close>.\<close>

definition setConnectionStatus :: "bool \<Rightarrow> js_string option \<Rightarrow> AppState \<Rightarrow> AppState" where
  "setConnectionStatus conn err s = s\<lparr>isConnected := conn, connectionError := err\<rparr>"

text \<open>\<^verbatim>\<open>models[0]?.id\<close>: \<^verbatim>\<open>undefined\<close> on the empty array.\<close>

definition firstId :: "Model list \<Rightarrow> js_string option" where
  "firstId ms = (case ms of [] \<Rightarrow> None | m # _ \<Rightarrow> Some (id' m))"

definition setModels :: "Model list \<Rightarrow> AppState \<Rightarrow> AppState" where
  "setModels ms s =
     (let readyModel = find (\<lambda>m. state m = Ready) ms;
          downloadedModel = find (\<lambda>m. state m = Downloaded) ms;
          currentSelected = selectedModelId s
      in s\<lparr> models := ms,
             selectedModelId :=
               js_or (js_or (js_or (js_or currentSelected (map_option id' readyModel))
                                   (map_option id' downloadedModel))
                            (firstId ms))
                     None \<rparr>)"

text \<open>
  The merge of one record: the state is taken from the update, progress and error are taken
  from the update unless they are \<^verbatim>\<open>null\<close> or \<^verbatim>\<open>undefined\<close>.
\<close>

definition mergeStatus ::
  "ModelState \<Rightarrow> DownloadProgress option \<Rightarrow> js_string option \<Rightarrow> Model \<Rightarrow> Model" where
  "mergeStatus st p e m =
     m\<lparr> state := st, progress := nullish p (progress m), error := nullish e (error m) \<rparr>"

definition updateModelStatus ::
  "js_string \<Rightarrow> ModelState \<Rightarrow> DownloadProgress option \<Rightarrow> js_string option \<Rightarrow> AppState \<Rightarrow> AppState"
  where
  "updateModelStatus modelId st p e s =
     s\<lparr> models := map (\<lambda>m. if id' m = modelId then mergeStatus st p e m else m) (models s) \<rparr>"

definition setSelectedModel :: "js_string \<Rightarrow> AppState \<Rightarrow> AppState" where
  "setSelectedModel modelId s = s\<lparr>selectedModelId := Some modelId\<rparr>"

definition setCurrentView :: "AppView \<Rightarrow> AppState \<Rightarrow> AppState" where
  "setCurrentView v s = s\<lparr>currentView := v\<rparr>"

definition setGenerating :: "bool \<Rightarrow> AppState \<Rightarrow> AppState" where
  "setGenerating g s = s\<lparr>isGenerating := g\<rparr>"

definition addGeneratedImage :: "GeneratedImage \<Rightarrow> AppState \<Rightarrow> AppState" where
  "addGeneratedImage img s = s\<lparr>generatedImages := img # generatedImages s\<rparr>"

definition setCurrentPrompt :: "js_string \<Rightarrow> AppState \<Rightarrow> AppState" where
  "setCurrentPrompt p s = s\<lparr>currentPrompt := p\<rparr>"

definition setGenerationError :: "js_string option \<Rightarrow> AppState \<Rightarrow> AppState" where
  "setGenerationError e s = s\<lparr>generationError := e\<rparr>"

text \<open>
  \<^verbatim>\<open>fetchModels\<close> awaits \<^verbatim>\<open>api.getModels()\<close>; the outcome of the call is the first
  argument: \<open>Inl\<close> when it throws (the error is logged, the store is left alone), \<open>Inr\<close>
  the list of the response.
\<close>

definition fetchModels :: "js_string + Model list \<Rightarrow> AppState \<Rightarrow> AppState" where
  "fetchModels outcome s = (case outcome of Inl _ \<Rightarrow> s | Inr ms \<Rightarrow> setModels ms s)"

text \<open>
  \<^verbatim>\<open>downloadModel\<close> and \<^verbatim>\<open>loadModel\<close> await a REST call; when it throws, the record is
  put in the error state with \<^verbatim>\<open>String(err)\<close> as message and no progress argument.
\<close>

definition downloadModel :: "js_string \<Rightarrow> js_string option \<Rightarrow> AppState \<Rightarrow> AppState" where
  "downloadModel modelId thrown s =
     (case thrown of None \<Rightarrow> s | Some msg \<Rightarrow> updateModelStatus modelId Error None (Some msg) s)"

definition loadModel :: "js_string \<Rightarrow> js_string option \<Rightarrow> AppState \<Rightarrow> AppState" where
  "loadModel modelId thrown s =
     (case thrown of None \<Rightarrow> s | Some msg \<Rightarrow> updateModelStatus modelId Error None (Some msg) s)"

subsection \<open>Message dispatch (\<^verbatim>\<open>App.tsx\<close>)\<close>

text \<open>
  The dispatch changes the store at once for \<^verbatim>\<open>model_status\<close>; for \<^verbatim>\<open>initial_state\<close>
  it starts a fetch of the model list, returned here as a request to the caller.
\<close>

datatype effect = StartFetchModels

fun handleWebSocketMessage :: "WebSocketMessage \<Rightarrow> AppState \<Rightarrow> AppState \<times> effect list" where
  "handleWebSocketMessage InitialState s = (s, [StartFetchModels])"
| "handleWebSocketMessage (ModelStatus mid st p e) s = (updateModelStatus mid st p e s, [])"
| "handleWebSocketMessage GenerationStart s = (s, [])"
| "handleWebSocketMessage GenerationComplete s = (s, [])"
| "handleWebSocketMessage GenerationError s = (s, [])"
| "handleWebSocketMessage Heartbeat s = (s, [])"
| "handleWebSocketMessage Pong s = (s, [])"
| "handleWebSocketMessage (Unknown _) s = (s, [])"

text \<open>\<^verbatim>\<open>models.find((m) => m.id === selectedModelId)\<close> of the generate page.\<close>

definition findModel :: "js_string \<Rightarrow> AppState \<Rightarrow> Model option" where
  "findModel k s = find (\<lambda>m. id' m = k) (models s)"

text \<open>Updates to one model id, applied in the order of their arrival.\<close>

type_synonym status_update = "ModelState \<times> DownloadProgress option \<times> js_string option"

fun applyUpdates :: "js_string \<Rightarrow> status_update list \<Rightarrow> AppState \<Rightarrow> AppState" where
  "applyUpdates k [] s = s"
| "applyUpdates k ((st, p, e) # us) s = applyUpdates k us (updateModelStatus k st p e s)"

subsection \<open>The generate handler (\<^verbatim>\<open>GeneratePage.tsx\<close>)\<close>

datatype GenerationMode = Txt2Img | Img2Img

text \<open>A \<^verbatim>\<open>File\<close> chosen by the user, by its name.\<close>

datatype js_file = JsFile js_string

text \<open>
  The local state of the page that the handler reads. The \<^verbatim>\<open>useState\<close> variables
  \<^verbatim>\<open>width\<close>, \<^verbatim>\<open>height\<close> and \<^verbatim>\<open>seed\<close> carry \<open>ui_\<close>, since the request has fields of
  the same names.
\<close>

record GeneratePageState =
  mode :: GenerationMode
  ui_width :: int
  ui_height :: int
  steps :: int
  guidance :: real
  ui_seed :: js_string
  negativePrompt :: js_string
  referenceImage :: "js_file option"
  imageStrength :: real

record Img2ImgOptions =
  opt_model_id :: "js_string option"
  opt_num_inference_steps :: "int option"
  opt_image_strength :: "real option"
  opt_seed :: "seed_value option"

text \<open>The two REST calls the handler can issue, with their arguments.\<close>

datatype api_call =
    GenerateImage GenerationRequest
  | GenerateImg2Img js_string js_file Img2ImgOptions

text \<open>\<^verbatim>\<open>seed ? parseInt(seed) : undefined\<close>\<close>

definition seedArg :: "js_string \<Rightarrow> seed_value option" where
  "seedArg sd = (if sd \<noteq> [] then Some (ParseInt sd) else None)"

text \<open>
  What a rejected promise carries: an \<^verbatim>\<open>Error\<close> object with its message, or any other
  value. \<open>thrownMessage\<close> is \<^verbatim>\<open>err instanceof Error ? err.message : "Generation failed"\<close>.
\<close>

datatype thrown = ErrorObject js_string | OtherValue

definition thrownMessage :: "thrown \<Rightarrow> js_string" where
  "thrownMessage t = (case t of ErrorObject msg \<Rightarrow> msg | OtherValue \<Rightarrow> utf16 ''Generation failed'')"

definition canGenerate :: "GeneratePageState \<Rightarrow> AppState \<Rightarrow> bool" where
  "canGenerate pg s =
     (trim (currentPrompt s) \<noteq> [] \<and> \<not> isGenerating s \<and> truthy (selectedModelId s)
      \<and> (mode pg = Txt2Img \<or> referenceImage pg \<noteq> None))"

text \<open>
  \<^verbatim>\<open>handleGenerate\<close> is an async function. Its part before the \<^verbatim>\<open>await\<close> runs at once:
  the two guards, \<^verbatim>\<open>setGenerating(true)\<close>, \<^verbatim>\<open>setGenerationError(null)\<close> and the REST
  call, which is returned here beside the store (\<open>None\<close> when the handler returns early).
  The handler reads \<^verbatim>\<open>currentPrompt\<close>, \<^verbatim>\<open>selectedModelId\<close> and \<^verbatim>\<open>isGenerating\<close> as of the
  latest render of the page, which follows every change of the store; they are read from
  the store here.
\<close>

definition handleGenerate_begin :: "GeneratePageState \<Rightarrow> AppState \<Rightarrow> AppState \<times> api_call option"
  where
  "handleGenerate_begin pg s =
     (if trim (currentPrompt s) = [] \<or> \<not> truthy (selectedModelId s) \<or> isGenerating s
      then (s, None)
      else if mode pg = Img2Img \<and> referenceImage pg = None then (s, None)
      else
        (case selectedModelId s of
           None \<Rightarrow> (s, None)
         | Some mid \<Rightarrow>
             (setGenerationError None (setGenerating True s),
              Some (case (mode pg, referenceImage pg) of
                      (Img2Img, Some img) \<Rightarrow>
                        GenerateImg2Img (currentPrompt s) img
                          \<lparr> opt_model_id = Some mid,
                            opt_num_inference_steps = Some (steps pg),
                            opt_image_strength = Some (imageStrength pg),
                            opt_seed = seedArg (ui_seed pg) \<rparr>
                    | _ \<Rightarrow>
                        GenerateImage
                          \<lparr> prompt = currentPrompt s, model_id = mid,
                            width = ui_width pg, height = ui_height pg,
                            num_inference_steps = steps pg,
                            guidance_scale = guidance pg,
                            seed = seedArg (ui_seed pg),
                            negative_prompt =
                              (if negativePrompt pg \<noteq> [] then Some (negativePrompt pg)
                               else None) \<rparr>))))"

text \<open>
  The part after the \<^verbatim>\<open>await\<close> runs when the call settles: \<open>Inr\<close> the image of a
  fulfilled promise, \<open>Inl\<close> what a rejected one carries; \<^verbatim>\<open>finally\<close> clears the flag.
\<close>

definition handleGenerate_settle :: "thrown + GeneratedImage \<Rightarrow> AppState \<Rightarrow> AppState" where
  "handleGenerate_settle outcome s =
     setGenerating False
       (case outcome of
          Inr img \<Rightarrow> addGeneratedImage img s
        | Inl t \<Rightarrow> setGenerationError (Some (thrownMessage t)) s)"

definition callPrompt :: "api_call \<Rightarrow> js_string" where
  "callPrompt c = (case c of GenerateImage r \<Rightarrow> prompt r | GenerateImg2Img p _ _ \<Rightarrow> p)"

definition callModelId :: "api_call \<Rightarrow> js_string option" where
  "callModelId c =
     (case c of GenerateImage r \<Rightarrow> Some (model_id r) | GenerateImg2Img _ _ opts \<Rightarrow> opt_model_id opts)"

text \<open>
  One client as the event loop sees it: the store and the generation calls that have been
  issued and have not settled. An event is a press of the generate button (or Cmd+Enter),
  the settling of the oldest pending call, or one of the store actions that other handlers
  run.
\<close>

record client =
  store :: AppState
  pending :: "api_call list"

datatype event =
    Generate GeneratePageState
  | Settled "thrown + GeneratedImage"
  | DoSetModels "Model list"
  | DoUpdateModelStatus js_string ModelState "DownloadProgress option" "js_string option"
  | DoSetSelectedModel js_string
  | DoSetCurrentPrompt js_string
  | DoSetCurrentView AppView
  | DoSetConnectionStatus bool "js_string option"
  | DoSetSystemInfo SystemInfo

fun step :: "event \<Rightarrow> client \<Rightarrow> client" where
  "step (Generate pg) c =
     (case handleGenerate_begin pg (store c) of
        (s', None) \<Rightarrow> c\<lparr>store := s'\<rparr>
      | (s', Some call) \<Rightarrow> c\<lparr>store := s', pending := pending c @ [call]\<rparr>)"
| "step (Settled outcome) c =
     (case pending c of
        [] \<Rightarrow> c
      | _ # rest \<Rightarrow> c\<lparr>store := handleGenerate_settle outcome (store c), pending := rest\<rparr>)"
| "step (DoSetModels ms) c = c\<lparr>store := setModels ms (store c)\<rparr>"
| "step (DoUpdateModelStatus k st p e) c = c\<lparr>store := updateModelStatus k st p e (store c)\<rparr>"
| "step (DoSetSelectedModel k) c = c\<lparr>store := setSelectedModel k (store c)\<rparr>"
| "step (DoSetCurrentPrompt p) c = c\<lparr>store := setCurrentPrompt p (store c)\<rparr>"
| "step (DoSetCurrentView v) c = c\<lparr>store := setCurrentView v (store c)\<rparr>"
| "step (DoSetConnectionStatus b e) c = c\<lparr>store := setConnectionStatus b e (store c)\<rparr>"
| "step (DoSetSystemInfo i) c = c\<lparr>store := setSystemInfo i (store c)\<rparr>"

fun run :: "event list \<Rightarrow> client \<Rightarrow> client" where
  "run [] c = c"
| "run (ev # evs) c = run evs (step ev c)"

definition initialClient :: client where
  "initialClient = \<lparr> store = initialState, pending = [] \<rparr>"

subsection \<open>The push-channel hook (\<^verbatim>\<open>useWebSocket.ts\<close>)\<close>

datatype ReadyState = CONNECTING | OPEN | CLOSING | CLOSED

text \<open>
  A \<^verbatim>\<open>WebSocket\<close> object of the browser: its ready state, the frames handed to its
  \<^verbatim>\<open>send\<close> and the arguments of the calls of its \<^verbatim>\<open>close\<close>.
\<close>

record WebSocketObj =
  readyState :: ReadyState
  sent :: "js_string list"
  closeCalls :: "(nat \<times> js_string) list"

text \<open>The callbacks of the owner that the hook has invoked, in order.\<close>

datatype callback = OnConnect | OnDisconnect | OnMessage WebSocketMessage

text \<open>
  The refs and the state of the hook, with the part of the browser it acts on: the sockets
  constructed so far (by handle) and the timers of \<^verbatim>\<open>window.setTimeout\<close> that are pending
  (handle and delay in milliseconds).
\<close>

record HookState =
  sockets :: "nat \<Rightarrow> WebSocketObj option"
  created :: nat
  wsRef :: "nat option"
  reconnectTimeoutRef :: "nat option"
  mountedRef :: bool
  hook_isConnected :: bool
  hook_connectionError :: "js_string option"
  timers :: "(nat \<times> nat) list"
  lastTimer :: nat
  fired :: "callback list"

text \<open>\<^verbatim>\<open>const { reconnectInterval = 3000 } = options\<close>\<close>

definition reconnectInterval :: "nat option \<Rightarrow> nat" where
  "reconnectInterval opt = (case opt of None \<Rightarrow> 3000 | Some n \<Rightarrow> n)"

text \<open>
  \<^verbatim>\<open>window.setTimeout\<close> returns a fresh handle, an integer greater than zero, and
  \<^verbatim>\<open>clearTimeout\<close> removes the timer of a handle.
\<close>

definition setTimeout :: "nat \<Rightarrow> HookState \<Rightarrow> nat \<times> HookState" where
  "setTimeout delay h =
     (let t = Suc (lastTimer h) in (t, h\<lparr>timers := timers h @ [(t, delay)], lastTimer := t\<rparr>))"

definition clearTimeout :: "nat \<Rightarrow> HookState \<Rightarrow> HookState" where
  "clearTimeout t h = h\<lparr>timers := filter (\<lambda>x. fst x \<noteq> t) (timers h)\<rparr>"

text \<open>\<^verbatim>\<open>wsRef.current?.readyState\<close>\<close>

definition refReadyState :: "HookState \<Rightarrow> ReadyState option" where
  "refReadyState h =
     (case wsRef h of None \<Rightarrow> None
      | Some k \<Rightarrow> (case sockets h k of None \<Rightarrow> None | Some w \<Rightarrow> Some (readyState w)))"

text \<open>
  \<^verbatim>\<open>connect\<close>. The first argument says whether \<^verbatim>\<open>new WebSocket(url)\<close> returns a socket
  (in state \<^verbatim>\<open>CONNECTING\<close>) or throws.
\<close>

definition connect :: "bool \<Rightarrow> HookState \<Rightarrow> HookState" where
  "connect constructed h =
     (if \<not> mountedRef h then h
      else if refReadyState h = Some OPEN \<or> refReadyState h = Some CONNECTING then h
      else if constructed then
        (let k = created h
         in h\<lparr> sockets := (sockets h)(k \<mapsto> \<lparr>readyState = CONNECTING, sent = [], closeCalls = []\<rparr>),
                created := Suc k,
                wsRef := Some k \<rparr>)
      else h\<lparr>hook_connectionError := Some (utf16 ''Failed to create WebSocket connection'')\<rparr>)"

definition ws_onopen :: "HookState \<Rightarrow> HookState" where
  "ws_onopen h =
     (if \<not> mountedRef h then h
      else h\<lparr> hook_isConnected := True, hook_connectionError := None,
               fired := fired h @ [OnConnect] \<rparr>)"

text \<open>
  \<^verbatim>\<open>ws.onclose\<close>, with the reconnect interval of the hook and the code of the close
  event.
\<close>

definition ws_onclose :: "nat \<Rightarrow> nat \<Rightarrow> HookState \<Rightarrow> HookState" where
  "ws_onclose interval code h =
     (if \<not> mountedRef h then h
      else
        (let h1 = h\<lparr> hook_isConnected := False, wsRef := None,
                      fired := fired h @ [OnDisconnect] \<rparr>
         in if code \<noteq> 1000 \<and> mountedRef h1
            then (case setTimeout interval h1 of
                    (t, h2) \<Rightarrow> h2\<lparr>reconnectTimeoutRef := Some t\<rparr>)
            else h1))"

text \<open>
  The callback of the reconnect timer, when the timer \<open>t\<close> fires: the browser drops the
  timer and the callback connects if the owner is still mounted.
\<close>

definition reconnectTimerFires :: "nat \<Rightarrow> bool \<Rightarrow> HookState \<Rightarrow> HookState" where
  "reconnectTimerFires t constructed h =
     (if t \<in> fst ` set (timers h)
      then (let h1 = clearTimeout t h in if mountedRef h1 then connect constructed h1 else h1)
      else h)"

definition ws_onerror :: "HookState \<Rightarrow> HookState" where
  "ws_onerror h = h\<lparr>hook_connectionError := Some (utf16 ''Failed to connect to server'')\<rparr>"

text \<open>\<^verbatim>\<open>ws.onmessage\<close>: \<open>None\<close> when \<^verbatim>\<open>JSON.parse\<close> throws (logged, nothing else).\<close>

definition ws_onmessage :: "WebSocketMessage option \<Rightarrow> HookState \<Rightarrow> HookState" where
  "ws_onmessage parsed h =
     (case parsed of None \<Rightarrow> h | Some m \<Rightarrow> h\<lparr>fired := fired h @ [OnMessage m]\<rparr>)"

text \<open>
  \<^verbatim>\<open>WebSocket.close(code, reason)\<close>: a socket that is not closed starts closing; the
  close event comes later.
\<close>

definition ws_close :: "nat \<Rightarrow> nat \<Rightarrow> js_string \<Rightarrow> HookState \<Rightarrow> HookState" where
  "ws_close k code reason h =
     (case sockets h k of
        None \<Rightarrow> h
      | Some w \<Rightarrow>
          h\<lparr>sockets := (sockets h)(k \<mapsto>
               w\<lparr> readyState := (if readyState w = CLOSED then CLOSED else CLOSING),
                  closeCalls := closeCalls w @ [(code, reason)] \<rparr>)\<rparr>)"

text \<open>\<^verbatim>\<open>disconnect\<close>. A timer handle is truthy when it is not zero.\<close>

definition disconnect :: "HookState \<Rightarrow> HookState" where
  "disconnect h =
     (let h1 = (case reconnectTimeoutRef h of
                  None \<Rightarrow> h
                | Some t \<Rightarrow> if t \<noteq> 0 then (clearTimeout t h)\<lparr>reconnectTimeoutRef := None\<rparr>
                            else h)
      in case wsRef h1 of
           None \<Rightarrow> h1
         | Some k \<Rightarrow> (ws_close k 1000 (utf16 ''Component unmounting'') h1)\<lparr>wsRef := None\<rparr>)"



text \<open>The effect of the hook: its body on mount, its cleanup on unmount.\<close>

definition mountEffect :: "bool \<Rightarrow> HookState \<Rightarrow> HookState" where
  "mountEffect constructed h = connect constructed (h\<lparr>mountedRef := True\<rparr>)"

definition unmountEffect :: "HookState \<Rightarrow> HookState" where
  "unmountEffect h = disconnect (h\<lparr>mountedRef := False\<rparr>)"

definition initialHook :: HookState where
  "initialHook =
     \<lparr> sockets = (\<lambda>_. None), created = 0, wsRef = None, reconnectTimeoutRef = None,
       mountedRef = True, hook_isConnected = False, hook_connectionError = None,
       timers = [], lastTimer = 0, fired = [] \<rparr>"


text \<open>
  The browser's side of the two events that the examples below need: the socket \<open>k\<close>
  becomes open, or closed with a code, and then the handler of the hook runs.
\<close>

definition setReadyState :: "nat \<Rightarrow> ReadyState \<Rightarrow> HookState \<Rightarrow> HookState" where
  "setReadyState k r h =
     (case sockets h k of
        None \<Rightarrow> h
      | Some w \<Rightarrow> h\<lparr>sockets := (sockets h)(k \<mapsto> w\<lparr>readyState := r\<rparr>)\<rparr>)"

definition socketOpens :: "nat \<Rightarrow> HookState \<Rightarrow> HookState" where
  "socketOpens k h = ws_onopen (setReadyState k OPEN h)"

definition socketCloses :: "nat \<Rightarrow> nat \<Rightarrow> nat \<Rightarrow> HookState \<Rightarrow> HookState" where
  "socketCloses interval k code h = ws_onclose interval code (setReadyState k CLOSED h)"

subsection \<open>Sample values\<close>

text \<open>Concrete records and stores, on which the properties below are also evaluated.\<close>

definition sampleModel :: "string \<Rightarrow> ModelState \<Rightarrow> Model" where
  "sampleModel k st =
     \<lparr> id' = utf16 k, name = utf16 ''Z-Image Turbo'', description = [],
       recommended_steps = 8, recommended_guidance = 0, size_gb = 6,
       state = st, progress = None, error = None, is_current = False \<rparr>"

definition sampleProgress :: DownloadProgress where
  "sampleProgress =
     \<lparr> total_size = 1000, downloaded_size = 250, current_file = utf16 ''weights.bin'',
       files_completed = 1, total_files = 4, speed = 10, eta = 75, percent = 25 \<rparr>"

definition downloadingStore :: AppState where
  "downloadingStore =
     updateModelStatus (utf16 ''m1'') Downloading (Some sampleProgress) None
       (setModels [sampleModel ''m1'' NotDownloaded] initialState)"

definition failedStore :: AppState where
  "failedStore =
     updateModelStatus (utf16 ''m3'') Error None (Some (utf16 ''boom''))
       (setModels [sampleModel ''m3'' Downloading] initialState)"

definition twoModelStore :: AppState where
  "twoModelStore =
     setModels [sampleModel ''m1'' Ready, sampleModel ''m2'' NotDownloaded] initialState"

definition samplePage :: GeneratePageState where
  "samplePage =
     \<lparr> mode = Txt2Img, ui_width = 1024, ui_height = 1024, steps = 8, guidance = 0,
       ui_seed = [], negativePrompt = [], referenceImage = None, imageStrength = 0.7 \<rparr>"

definition connectingHook :: HookState where
  "connectingHook = mountEffect True initialHook"

definition openHook :: HookState where
  "openHook = socketOpens 0 connectingHook"

text \<open>
  The hook after its effect has run, been cleaned up and run again, and the close event of
  the first socket (closed while connecting, hence code 1006) has arrived; then either the
  second socket opens, or it closes with code 1006 as well.
\<close>

definition remountedHook :: HookState where
  "remountedHook =
     socketCloses 3000 0 1006 (mountEffect True (unmountEffect (mountEffect True initialHook)))"


definition twoTimersHook :: HookState where
  "twoTimersHook = socketCloses 3000 1 1006 remountedHook"

definition promptStore :: AppState where
  "promptStore = setCurrentPrompt (utf16 ''a cat'') twoModelStore"

definition blankStore :: AppState where
  "blankStore = setCurrentPrompt (utf16 ''  '') twoModelStore"

definition sampleCall :: api_call where
  "sampleCall =
     GenerateImage
       \<lparr> prompt = utf16 ''a cat'', model_id = utf16 ''m1'', width = 1024, height = 1024,
         num_inference_steps = 8, guidance_scale = 0, seed = None, negative_prompt = None \<rparr>"

subsection \<open>Positions in a snapshot\<close>

text \<open>
  \<open>firstInState st ms i\<close>: the record at position \<open>i\<close> is the first record of \<open>ms\<close>
  in the state \<open>st\<close>. \<open>noUsable st ms\<close>: no record of \<open>ms\<close> is in the state \<open>st\<close>,
  or the first one that is has the empty id.
\<close>

definition firstInState :: "ModelState \<Rightarrow> Model list \<Rightarrow> nat \<Rightarrow> bool" where
  "firstInState st ms i = (i < length ms \<and> state (ms ! i) = st \<and> (\<forall>j<i. state (ms ! j) \<noteq> st))"

definition noUsable :: "ModelState \<Rightarrow> Model list \<Rightarrow> bool" where
  "noUsable st ms =
     ((\<forall>m\<in>set ms. state m \<noteq> st) \<or> (\<exists>i<length ms. firstInState st ms i \<and> id' (ms ! i) = []))"

text \<open>The snapshots of a run list every model id once.\<close>

fun distinctSnapshot :: "event \<Rightarrow> bool" where
  "distinctSnapshot (DoSetModels ms) = distinct (map id' ms)"
| "distinctSnapshot _ = True"

subsection \<open>The invariant of the generation guard\<close>

text \<open>
  At most one generation call is pending, and the flag \<^verbatim>\<open>isGenerating\<close> is set exactly
  while one is.
\<close>

definition guard_inv :: "client \<Rightarrow> bool" where
  "guard_inv c = (length (pending c) \<le> 1 \<and> (isGenerating (store c) = (pending c \<noteq> [])))"

section \<open>Properties of the registry merge\<close>

lemma nullish_idem: "nullish a (nullish a b) = nullish a b"
  by (cases a) (simp_all add: nullish_def)

lemma mergeStatus_id: "id' (mergeStatus st p e m) = id' m"
  by (simp add: mergeStatus_def)

lemma mergeStatus_idem: "mergeStatus st p e (mergeStatus st p e m) = mergeStatus st p e m"
  by (simp add: mergeStatus_def nullish_idem)

lemma updateModelStatus_ids:
  "map id' (models (updateModelStatus k st p e s)) = map id' (models s)"
  by (simp add: updateModelStatus_def mergeStatus_id)

text \<open>
  Claim C7. Applying the same \<^verbatim>\<open>model_status\<close> message (same model id, state, progress
  and error) twice gives the same store, hence the same registry content, as applying it
  once; this holds for the store action and for the dispatch of the message.
\<close>

theorem model_status_idempotent:
  "updateModelStatus k st p e (updateModelStatus k st p e s) = updateModelStatus k st p e s
   \<and> fst (handleWebSocketMessage (ModelStatus k st p e)
            (fst (handleWebSocketMessage (ModelStatus k st p e) s)))
     = fst (handleWebSocketMessage (ModelStatus k st p e) s)"
proof -
  have "map (\<lambda>m. if id' m = k then mergeStatus st p e m else m)
          (map (\<lambda>m. if id' m = k then mergeStatus st p e m else m) ms)
        = map (\<lambda>m. if id' m = k then mergeStatus st p e m else m) ms" for ms
    by (induction ms) (simp_all add: mergeStatus_id mergeStatus_idem)
  then have "updateModelStatus k st p e (updateModelStatus k st p e s)
             = updateModelStatus k st p e s"
    by (simp add: updateModelStatus_def)
  then show ?thesis by simp
qed

lemma find_map_same_id:
  "(\<And>m. id' (f m) = id' m) \<Longrightarrow>
   find (\<lambda>m. id' m = k) (map (\<lambda>m. if id' m = j then f m else m) ms)
   = map_option (\<lambda>m. if id' m = j then f m else m) (find (\<lambda>m. id' m = k) ms)"
  by (induction ms) auto

lemma findModel_update:
  "findModel k (updateModelStatus k st p e s) = map_option (mergeStatus st p e) (findModel k s)"
proof -
  have "findModel k (updateModelStatus k st p e s)
        = map_option (\<lambda>m. if id' m = k then mergeStatus st p e m else m) (findModel k s)"
    unfolding findModel_def updateModelStatus_def
    using find_map_same_id [of "mergeStatus st p e" k k "models s"]
    by (simp add: mergeStatus_id)
  moreover have "id' m = k" if "findModel k s = Some m" for m
    using that by (auto simp: findModel_def find_Some_iff)
  ultimately show ?thesis by (cases "findModel k s") auto
qed

lemma findModel_update_other:
  "j \<noteq> k \<Longrightarrow> findModel j (updateModelStatus k st p e s) = findModel j s"
proof -
  assume jk: "j \<noteq> k"
  have "findModel j (updateModelStatus k st p e s)
        = map_option (\<lambda>m. if id' m = k then mergeStatus st p e m else m) (findModel j s)"
    unfolding findModel_def updateModelStatus_def
    using find_map_same_id [of "mergeStatus st p e" j k "models s"]
    by (simp add: mergeStatus_id)
  moreover have "id' m = j" if "findModel j s = Some m" for m
    using that by (auto simp: findModel_def find_Some_iff)
  ultimately show ?thesis using jk by (cases "findModel j s") auto
qed

lemma applyUpdates_last:
  "findModel k s = Some m \<Longrightarrow> us \<noteq> [] \<Longrightarrow>
   map_option state (findModel k (applyUpdates k us s)) = Some (fst (last us))"
proof (induction us arbitrary: s m)
  case Nil
  then show ?case by simp
next
  case (Cons u us)
  obtain st p e where u: "u = (st, p, e)" by (cases u)
  have f: "findModel k (updateModelStatus k st p e s) = Some (mergeStatus st p e m)"
    using Cons.prems(1) by (simp add: findModel_update)
  show ?case
  proof (cases "us = []")
    case True
    then show ?thesis using f u by (simp add: mergeStatus_def)
  next
    case False
    then show ?thesis using Cons.IH [OF f False] u by simp
  qed
qed

text \<open>
  Claim C1, as the merge has it. An update always sets the state of the record to the
  incoming state, whatever the two states are, so after any non-empty sequence of updates
  to one model id the state is that of the last update. An update that carries no progress
  leaves the progress of the record as it was, so a record that is \<open>Downloading\<close> with
  progress still has that progress after a later update without one.
\<close>

theorem updateModelStatus_last_writer_wins:
  assumes "findModel k s = Some m"
  shows "map_option state (findModel k (updateModelStatus k st p e s)) = Some st
       \<and> map_option progress (findModel k (updateModelStatus k st p e s))
           = Some (case p of None \<Rightarrow> progress m | Some q \<Rightarrow> Some q)
       \<and> (us \<noteq> [] \<longrightarrow>
            map_option state (findModel k (applyUpdates k us s)) = Some (fst (last us)))"
  using assms applyUpdates_last [OF assms]
  by (simp add: findModel_update mergeStatus_def nullish_def)

lemma m1_downloading:
  "findModel (utf16 ''m1'') downloadingStore
   = Some ((sampleModel ''m1'' NotDownloaded)\<lparr>state := Downloading, progress := Some sampleProgress\<rparr>)"
  by (simp add: downloadingStore_def findModel_def updateModelStatus_def setModels_def
      initialState_def sampleModel_def mergeStatus_def nullish_def utf16_def Let_def)

text \<open>
  Claim C1 says that an update carrying an older state than the record's leaves the state
  field as it is. The merge has no order on states: in the scenario of a \<open>Downloading\<close>
  progress update followed by a \<open>NotDownloaded\<close> update, the record ends in
  \<open>NotDownloaded\<close>.
\<close>

theorem stale_update_overwrites_state_counterexample:
  "map_option state (findModel (utf16 ''m1'') downloadingStore) = Some Downloading
   \<and> map_option state
       (findModel (utf16 ''m1'')
          (updateModelStatus (utf16 ''m1'') NotDownloaded None None downloadingStore))
     = Some NotDownloaded"
  by (simp add: findModel_update m1_downloading mergeStatus_def)

text \<open>The scenario of claim C1 on the sample store, through the theorem above.\<close>

theorem updateModelStatus_last_writer_wins_witness:
  "findModel (utf16 ''m1'') downloadingStore
     = Some ((sampleModel ''m1'' NotDownloaded)\<lparr>state := Downloading, progress := Some sampleProgress\<rparr>)
   \<and> map_option state
       (findModel (utf16 ''m1'')
          (updateModelStatus (utf16 ''m1'') NotDownloaded None None downloadingStore))
     = Some NotDownloaded
   \<and> map_option progress
       (findModel (utf16 ''m1'')
          (updateModelStatus (utf16 ''m1'') NotDownloaded None None downloadingStore))
     = Some (Some sampleProgress)
   \<and> map_option state
       (findModel (utf16 ''m1'')
          (applyUpdates (utf16 ''m1'') [(Ready, None, None), (Downloading, None, None)] downloadingStore))
     = Some Downloading"
  using updateModelStatus_last_writer_wins [OF m1_downloading,
      of NotDownloaded None None "[(Ready, None, None), (Downloading, None, None)]"]
  by (simp add: m1_downloading)

section \<open>Recovery, snapshots and unknown ids\<close>

lemma m3_failed:
  "findModel (utf16 ''m3'') failedStore
   = Some ((sampleModel ''m3'' Downloading)\<lparr>state := Error, error := Some (utf16 ''boom'')\<rparr>)"
  by (simp add: failedStore_def findModel_def updateModelStatus_def setModels_def
      initialState_def sampleModel_def mergeStatus_def nullish_def utf16_def Let_def)

text \<open>
  Claim C2 says that a non-error update to a record in the \<open>Error\<close> state clears its
  error message. In the scenario of an \<open>Error\<close> update for \<open>m3\<close> followed by a
  \<open>Downloading\<close> message whose error is \<^verbatim>\<open>null\<close>, the message \<open>boom\<close> is still on the
  record.
\<close>

theorem recovery_keeps_error_message_counterexample:
  "map_option state (findModel (utf16 ''m3'') failedStore) = Some Error
   \<and> map_option error
       (findModel (utf16 ''m3'')
          (fst (handleWebSocketMessage (ModelStatus (utf16 ''m3'') Downloading None None)
                  failedStore)))
     = Some (Some (utf16 ''boom''))"
  by (simp add: findModel_update m3_failed mergeStatus_def nullish_def)

text \<open>
  Claim C2, as the merge has it. For a record in the \<open>Error\<close> state, a non-error
  \<^verbatim>\<open>model_status\<close> message sets the state to the incoming state. The record is not
  replaced wholesale: its error message is kept unless the message carries an error of its
  own, and its progress is kept unless the message carries progress.
\<close>

theorem recovery_sets_state_keeps_error:
  assumes "findModel k s = Some m" and "state m = Error" and "st \<noteq> Error"
  shows "map_option state (findModel k (fst (handleWebSocketMessage (ModelStatus k st p e) s)))
           = Some st
       \<and> map_option error (findModel k (fst (handleWebSocketMessage (ModelStatus k st p e) s)))
           = Some (case e of None \<Rightarrow> error m | Some x \<Rightarrow> Some x)
       \<and> map_option progress (findModel k (fst (handleWebSocketMessage (ModelStatus k st p e) s)))
           = Some (case p of None \<Rightarrow> progress m | Some q \<Rightarrow> Some q)"
  using assms by (simp add: findModel_update mergeStatus_def nullish_def)

text \<open>
  The scenario of claim C2 on the sample store, through the theorem above.
\<close>

theorem recovery_sets_state_keeps_error_witness:
  "findModel (utf16 ''m3'') failedStore
     = Some ((sampleModel ''m3'' Downloading)\<lparr>state := Error, error := Some (utf16 ''boom'')\<rparr>)
   \<and> Downloading \<noteq> Error
   \<and> map_option state
       (findModel (utf16 ''m3'')
          (fst (handleWebSocketMessage (ModelStatus (utf16 ''m3'') Downloading None None)
                  failedStore)))
     = Some Downloading
   \<and> map_option error
       (findModel (utf16 ''m3'')
          (fst (handleWebSocketMessage (ModelStatus (utf16 ''m3'') Downloading None None)
                  failedStore)))
     = Some (Some (utf16 ''boom''))"
  using recovery_sets_state_keeps_error [OF m3_failed, of Downloading None None]
  by (simp add: m3_failed)

lemma twoModelStore_models:
  "models twoModelStore = [sampleModel ''m1'' Ready, sampleModel ''m2'' NotDownloaded]"
  by (simp add: twoModelStore_def setModels_def Let_def)

lemma sample_id: "id' (sampleModel k st) = utf16 k"
  by (simp add: sampleModel_def)

text \<open>
  Claim C3 says that a snapshot leaves a local record alone when its id is absent from the
  snapshot. With \<open>m1\<close> and \<open>m2\<close> in the registry, a fetched snapshot that lists only
  \<open>m1\<close> removes \<open>m2\<close>.
\<close>

theorem snapshot_drops_absent_record_counterexample:
  "findModel (utf16 ''m2'') twoModelStore = Some (sampleModel ''m2'' NotDownloaded)
   \<and> utf16 ''m2'' \<notin> id' ` set [sampleModel ''m1'' Ready]
   \<and> findModel (utf16 ''m2'') (fetchModels (Inr [sampleModel ''m1'' Ready]) twoModelStore) = None"
  by (simp add: findModel_def twoModelStore_models fetchModels_def setModels_def Let_def
      sample_id utf16_def)

lemma findModel_None: "findModel k s = None \<longleftrightarrow> k \<notin> id' ` set (models s)"
  by (auto simp: findModel_def find_None_iff)

text \<open>
  Claim C3, as \<^verbatim>\<open>setModels\<close> has it. A snapshot replaces the registry: after a fetch
  that succeeds the registry is exactly the list of the snapshot, so every record of the
  snapshot is in it and no record is left for an id that the snapshot does not list. A
  fetch that fails leaves the store as it was.
\<close>

theorem snapshot_replaces_registry:
  "models (setModels snap s) = snap
   \<and> models (fetchModels (Inr snap) s) = snap
   \<and> fetchModels (Inl err) s = s
   \<and> (k \<notin> id' ` set snap \<longrightarrow> findModel k (fetchModels (Inr snap) s) = None)
   \<and> (m \<in> set snap \<longrightarrow> m \<in> set (models (fetchModels (Inr snap) s)))"
proof -
  have a: "models (setModels snap s) = snap"
    by (simp add: setModels_def Let_def)
  then show ?thesis
    by (simp add: fetchModels_def findModel_None)
qed

text \<open>
  Claim C3 on the sample store, through the theorem above.
\<close>

theorem snapshot_replaces_registry_witness:
  "utf16 ''m2'' \<notin> id' ` set [sampleModel ''m1'' Ready]
   \<and> sampleModel ''m1'' Ready \<in> set [sampleModel ''m1'' Ready]
   \<and> models (fetchModels (Inr [sampleModel ''m1'' Ready]) twoModelStore) = [sampleModel ''m1'' Ready]
   \<and> findModel (utf16 ''m2'') (fetchModels (Inr [sampleModel ''m1'' Ready]) twoModelStore) = None"
  using snapshot_replaces_registry [of "[sampleModel ''m1'' Ready]" twoModelStore _ "utf16 ''m2''"
      "sampleModel ''m1'' Ready"]
  by (simp add: sample_id utf16_def)

lemma begin_models: "models (fst (handleGenerate_begin pg s)) = models s"
  by (simp add: handleGenerate_begin_def setGenerating_def setGenerationError_def
      split: option.splits)

lemma settle_models: "models (handleGenerate_settle outcome s) = models s"
  by (simp add: handleGenerate_settle_def setGenerating_def setGenerationError_def
      addGeneratedImage_def split: sum.splits)

lemma step_distinct:
  assumes "distinctSnapshot ev" and "distinct (map id' (models (store c)))"
  shows "distinct (map id' (models (store (step ev c))))"
proof (cases ev)
  case (Generate pg)
  have "models (store (step ev c)) = models (fst (handleGenerate_begin pg (store c)))"
    using Generate by (simp split: prod.splits option.splits)
  then show ?thesis using assms(2) by (simp add: begin_models)
next
  case (Settled outcome)
  then show ?thesis using assms(2) by (cases "pending c") (simp_all add: settle_models)
next
  case (DoSetModels ms)
  then show ?thesis using assms(1) by (simp add: setModels_def Let_def)
next
  case (DoUpdateModelStatus k st p e)
  then show ?thesis using assms(2) by (simp add: updateModelStatus_ids)
qed (use assms(2) in \<open>simp_all add: setSelectedModel_def setCurrentPrompt_def setCurrentView_def
      setConnectionStatus_def setSystemInfo_def\<close>)

lemma run_distinct:
  "list_all distinctSnapshot evs \<Longrightarrow> distinct (map id' (models (store c))) \<Longrightarrow>
   distinct (map id' (models (store (run evs c))))"
  by (induction evs arbitrary: c) (simp_all add: step_distinct)

lemma initial_distinct: "distinct (map id' (models (store initialClient)))"
  by (simp add: initialClient_def initialState_def)

text \<open>
  Claim C9 says that the registry always holds exactly one record per model id. A fetched
  snapshot that lists \<open>m1\<close> twice leaves two records with the id \<open>m1\<close> in the
  registry.
\<close>

theorem repeated_id_snapshot_counterexample:
  "map id' (models (fetchModels (Inr [sampleModel ''m1'' Ready, sampleModel ''m1'' Downloading])
                      initialState))
     = [utf16 ''m1'', utf16 ''m1'']
   \<and> length (filter (\<lambda>m. id' m = utf16 ''m1'')
         (models (fetchModels (Inr [sampleModel ''m1'' Ready, sampleModel ''m1'' Downloading])
                    initialState))) = 2"
  by (simp add: fetchModels_def setModels_def Let_def sample_id)

text \<open>
  Claim C9, as the store has it. A push update for a model id that is not in the registry
  is ignored: the store is unchanged, so every record is as it was and none is added. No
  push update changes the list of ids of the registry, so push updates keep one record per
  model id where there was one. A snapshot is stored as it is: the registry holds one record
  per model id after it exactly when the snapshot lists each id once; hence it does so in
  every run of a client whose snapshots list each model id once.
\<close>

theorem unknown_id_update_ignored:
  "(k \<notin> id' ` set (models s) \<longrightarrow>
      updateModelStatus k st p e s = s
      \<and> handleWebSocketMessage (ModelStatus k st p e) s = (s, []))
   \<and> map id' (models (updateModelStatus k st p e s)) = map id' (models s)
   \<and> (distinct (map id' (models s)) \<longrightarrow>
        distinct (map id' (models (updateModelStatus k st p e s))))
   \<and> distinct (map id' (models (setModels snap s))) = distinct (map id' snap)
   \<and> (list_all distinctSnapshot evs \<longrightarrow>
        distinct (map id' (models (store (run evs initialClient)))))"
proof -
  have "updateModelStatus k st p e s = s" if "k \<notin> id' ` set (models s)"
  proof -
    have "map (\<lambda>m. if id' m = k then mergeStatus st p e m else m) (models s) = models s"
      using that by (intro map_idI) auto
    then show ?thesis by (simp add: updateModelStatus_def)
  qed
  moreover have "distinct (map id' (models (store (run evs initialClient))))"
    if "list_all distinctSnapshot evs"
    using that initial_distinct by (rule run_distinct)
  moreover have "models (setModels snap s) = snap"
    by (simp add: setModels_def Let_def)
  ultimately show ?thesis by (simp add: updateModelStatus_ids)
qed

text \<open>
  Claim C9 on the sample store, through the theorem above.
\<close>

theorem unknown_id_update_ignored_witness:
  "utf16 ''m9'' \<notin> id' ` set (models twoModelStore)
   \<and> distinct (map id' (models twoModelStore))
   \<and> updateModelStatus (utf16 ''m9'') Ready (Some sampleProgress) None twoModelStore = twoModelStore
   \<and> distinct (map id' (models (updateModelStatus (utf16 ''m9'') Ready (Some sampleProgress) None twoModelStore)))
   \<and> \<not> distinct (map id' (models (setModels [sampleModel ''m1'' Ready, sampleModel ''m1'' Downloading]
                                      twoModelStore)))
   \<and> list_all distinctSnapshot
         [DoSetModels [sampleModel ''m1'' Ready, sampleModel ''m2'' NotDownloaded],
          DoUpdateModelStatus (utf16 ''m2'') Downloading (Some sampleProgress) None]
   \<and> distinct (map id' (models (store (run
         [DoSetModels [sampleModel ''m1'' Ready, sampleModel ''m2'' NotDownloaded],
          DoUpdateModelStatus (utf16 ''m2'') Downloading (Some sampleProgress) None]
         initialClient))))"
  using unknown_id_update_ignored [of "utf16 ''m9''" twoModelStore Ready "Some sampleProgress" None
      "[sampleModel ''m1'' Ready, sampleModel ''m1'' Downloading]"
      "[DoSetModels [sampleModel ''m1'' Ready, sampleModel ''m2'' NotDownloaded],
        DoUpdateModelStatus (utf16 ''m2'') Downloading (Some sampleProgress) None]"]
  by (simp add: twoModelStore_models sample_id utf16_def)

section \<open>Selection of the active model\<close>

lemma truthy_Some: "truthy (Some x) \<longleftrightarrow> x \<noteq> []"
  by (simp add: truthy_def)

lemma selection_kept:
  "truthy (selectedModelId s) \<Longrightarrow> selectedModelId (setModels snap s) = selectedModelId s"
  by (simp add: setModels_def Let_def js_or_def)

lemma firstInState_find:
  "firstInState st ms i \<Longrightarrow> find (\<lambda>m. state m = st) ms = Some (ms ! i)"
  by (auto simp: firstInState_def find_Some_iff)

lemma noUsable_find:
  "noUsable st ms
   = (case find (\<lambda>m. state m = st) ms of None \<Rightarrow> True | Some m \<Rightarrow> id' m = [])"
proof (cases "find (\<lambda>m. state m = st) ms")
  case None
  then have "\<forall>m\<in>set ms. state m \<noteq> st" by (simp add: find_None_iff)
  then show ?thesis using None by (simp add: noUsable_def)
next
  case (Some m)
  then obtain i where i: "firstInState st ms i" "m = ms ! i"
    by (auto simp: find_Some_iff firstInState_def)
  have some: "\<not> (\<forall>m\<in>set ms. state m \<noteq> st)"
    using i(1) by (auto simp: firstInState_def)
  have uniq: "j = i" if "firstInState st ms j" for j
    using firstInState_find [OF that] firstInState_find [OF i(1)] that i(1)
    by (metis firstInState_def linorder_neqE_nat)
  show ?thesis
  proof
    assume "noUsable st ms"
    then obtain j where "firstInState st ms j" "id' (ms ! j) = []"
      using some by (auto simp: noUsable_def)
    then show "case find (\<lambda>m. state m = st) ms of None \<Rightarrow> True | Some m \<Rightarrow> id' m = []"
      using uniq Some i(2) by auto
  next
    assume "case find (\<lambda>m. state m = st) ms of None \<Rightarrow> True | Some m \<Rightarrow> id' m = []"
    then have "id' (ms ! i) = []" using Some i(2) by simp
    moreover have "i < length ms" using i(1) by (simp add: firstInState_def)
    ultimately show "noUsable st ms" using i(1) by (auto simp: noUsable_def)
  qed
qed

lemma selection_unselected:
  "\<not> truthy (selectedModelId s) \<Longrightarrow>
   selectedModelId (setModels snap s)
   = js_or (js_or (js_or (map_option id' (find (\<lambda>m. state m = Ready) snap))
                         (map_option id' (find (\<lambda>m. state m = Downloaded) snap)))
                  (firstId snap))
           None"
  by (simp add: setModels_def Let_def js_or_def)

lemma js_or_usable:
  "find (\<lambda>m. state m = st) ms = Some m \<Longrightarrow> id' m \<noteq> [] \<Longrightarrow>
   js_or (map_option id' (find (\<lambda>m. state m = st) ms)) b = Some (id' m)"
  by (simp add: js_or_def truthy_def)

lemma js_or_noUsable:
  "noUsable st ms \<Longrightarrow> js_or (map_option id' (find (\<lambda>m. state m = st) ms)) b = b"
  by (auto simp: noUsable_find js_or_def truthy_def split: option.splits)

lemma js_or_Some: "x \<noteq> [] \<Longrightarrow> js_or (Some x) b = Some x"
  by (simp add: js_or_def truthy_def)

lemma js_or_firstId:
  "js_or (firstId ms) None = (if ms \<noteq> [] \<and> id' (hd ms) \<noteq> [] then Some (id' (hd ms)) else None)"
  by (cases ms) (simp_all add: js_or_def truthy_def firstId_def)

text \<open>
  Claim C4, as \<^verbatim>\<open>setModels\<close> has it. A snapshot keeps any selection that is a non-empty
  id, whether a caller made it or an earlier snapshot did, and whether or not the id is in
  the snapshot. Only when nothing is selected does the snapshot choose: the id of the first
  \<open>Ready\<close> record if that id is not empty; otherwise (no \<open>Ready\<close> record, or the first
  one has the empty id) the id of the first \<open>Downloaded\<close> record if that id is not empty;
  otherwise the id of the first record if it is not empty; otherwise nothing. An explicit
  selection sets the selected id.
\<close>

theorem setModels_selection:
  "(truthy (selectedModelId s) \<longrightarrow> selectedModelId (setModels snap s) = selectedModelId s)
   \<and> (\<not> truthy (selectedModelId s) \<longrightarrow>
        (firstInState Ready snap i \<and> id' (snap ! i) \<noteq> [] \<longrightarrow>
           selectedModelId (setModels snap s) = Some (id' (snap ! i)))
      \<and> (noUsable Ready snap \<and> firstInState Downloaded snap i \<and> id' (snap ! i) \<noteq> [] \<longrightarrow>
           selectedModelId (setModels snap s) = Some (id' (snap ! i)))
      \<and> (noUsable Ready snap \<and> noUsable Downloaded snap \<and> snap \<noteq> [] \<and> id' (hd snap) \<noteq> [] \<longrightarrow>
           selectedModelId (setModels snap s) = Some (id' (hd snap)))
      \<and> (noUsable Ready snap \<and> noUsable Downloaded snap \<and> (snap = [] \<or> id' (hd snap) = []) \<longrightarrow>
           selectedModelId (setModels snap s) = None))
   \<and> selectedModelId (setSelectedModel k s) = Some k"
proof -
  have kept: "truthy (selectedModelId s) \<longrightarrow> selectedModelId (setModels snap s) = selectedModelId s"
    by (simp add: selection_kept)
  have sel: "selectedModelId (setSelectedModel k s) = Some k"
    by (simp add: setSelectedModel_def)
  have pick: "(firstInState Ready snap i \<and> id' (snap ! i) \<noteq> [] \<longrightarrow>
           selectedModelId (setModels snap s) = Some (id' (snap ! i)))
      \<and> (noUsable Ready snap \<and> firstInState Downloaded snap i \<and> id' (snap ! i) \<noteq> [] \<longrightarrow>
           selectedModelId (setModels snap s) = Some (id' (snap ! i)))
      \<and> (noUsable Ready snap \<and> noUsable Downloaded snap \<and> snap \<noteq> [] \<and> id' (hd snap) \<noteq> [] \<longrightarrow>
           selectedModelId (setModels snap s) = Some (id' (hd snap)))
      \<and> (noUsable Ready snap \<and> noUsable Downloaded snap \<and> (snap = [] \<or> id' (hd snap) = []) \<longrightarrow>
           selectedModelId (setModels snap s) = None)"
    if nt: "\<not> truthy (selectedModelId s)"
  proof (intro conjI impI)
    assume a: "firstInState Ready snap i \<and> id' (snap ! i) \<noteq> []"
    then have "find (\<lambda>m. state m = Ready) snap = Some (snap ! i)"
      by (simp add: firstInState_find)
    then show "selectedModelId (setModels snap s) = Some (id' (snap ! i))"
      using a by (simp add: selection_unselected [OF nt] js_or_usable js_or_Some)
  next
    assume a: "noUsable Ready snap \<and> firstInState Downloaded snap i \<and> id' (snap ! i) \<noteq> []"
    then have "find (\<lambda>m. state m = Downloaded) snap = Some (snap ! i)"
      by (simp add: firstInState_find)
    then show "selectedModelId (setModels snap s) = Some (id' (snap ! i))"
      using a by (simp add: selection_unselected [OF nt] js_or_noUsable js_or_usable js_or_Some)
  next
    assume a: "noUsable Ready snap \<and> noUsable Downloaded snap \<and> snap \<noteq> [] \<and> id' (hd snap) \<noteq> []"
    then show "selectedModelId (setModels snap s) = Some (id' (hd snap))"
      by (simp add: selection_unselected [OF nt] js_or_noUsable js_or_firstId)
  next
    assume a: "noUsable Ready snap \<and> noUsable Downloaded snap \<and> (snap = [] \<or> id' (hd snap) = [])"
    then show "selectedModelId (setModels snap s) = None"
      by (auto simp: selection_unselected [OF nt] js_or_noUsable js_or_firstId)
  qed
  have guarded: "\<not> truthy (selectedModelId s) \<longrightarrow>
        (firstInState Ready snap i \<and> id' (snap ! i) \<noteq> [] \<longrightarrow>
           selectedModelId (setModels snap s) = Some (id' (snap ! i)))
      \<and> (noUsable Ready snap \<and> firstInState Downloaded snap i \<and> id' (snap ! i) \<noteq> [] \<longrightarrow>
           selectedModelId (setModels snap s) = Some (id' (snap ! i)))
      \<and> (noUsable Ready snap \<and> noUsable Downloaded snap \<and> snap \<noteq> [] \<and> id' (hd snap) \<noteq> [] \<longrightarrow>
           selectedModelId (setModels snap s) = Some (id' (hd snap)))
      \<and> (noUsable Ready snap \<and> noUsable Downloaded snap \<and> (snap = [] \<or> id' (hd snap) = []) \<longrightarrow>
           selectedModelId (setModels snap s) = None)"
    by (rule impI) (rule pick)
  show ?thesis by (rule conjI [OF kept conjI [OF guarded sel]])
qed

text \<open>
  Claim C4 says that the priority order decides while no caller has selected a model, and
  that a selected id which is no longer in the registry falls back to the priority order.
  Starting from the initial store and without any explicit selection, a snapshot with only
  \<open>m2\<close> (not downloaded) selects \<open>m2\<close>; a second snapshot with only \<open>m1\<close> (ready)
  leaves \<open>m2\<close> selected, an id that is no longer in the registry.
\<close>

theorem automatic_selection_sticks_counterexample:
  "selectedModelId (setModels [sampleModel ''m2'' NotDownloaded] initialState) = Some (utf16 ''m2'')
   \<and> selectedModelId
       (setModels [sampleModel ''m1'' Ready]
          (setModels [sampleModel ''m2'' NotDownloaded] initialState))
     = Some (utf16 ''m2'')
   \<and> findModel (utf16 ''m2'')
       (setModels [sampleModel ''m1'' Ready]
          (setModels [sampleModel ''m2'' NotDownloaded] initialState))
     = None"
  by (simp add: setModels_def Let_def js_or_def truthy_def firstId_def initialState_def
      findModel_def sampleModel_def utf16_def)

text \<open>
  Claim C4 on the scenario of the specification (from the initial store, a snapshot with
  \<open>m1\<close> ready and \<open>m2\<close> not downloaded selects \<open>m1\<close>), on a snapshot whose first
  \<open>Ready\<close> record has the empty id (nothing is selected, although a second \<open>Ready\<close>
  record follows) and on a store with a selection, through the theorem above.
\<close>

theorem setModels_selection_witness:
  "\<not> truthy (selectedModelId initialState)
   \<and> firstInState Ready [sampleModel ''m1'' Ready, sampleModel ''m2'' NotDownloaded] 0
   \<and> selectedModelId
       (setModels [sampleModel ''m1'' Ready, sampleModel ''m2'' NotDownloaded] initialState)
     = Some (utf16 ''m1'')
   \<and> noUsable Ready [sampleModel [] Ready, sampleModel ''r2'' Ready]
   \<and> noUsable Downloaded [sampleModel [] Ready, sampleModel ''r2'' Ready]
   \<and> selectedModelId (setModels [sampleModel [] Ready, sampleModel ''r2'' Ready] initialState)
     = None
   \<and> truthy (selectedModelId twoModelStore)
   \<and> selectedModelId (setModels [sampleModel ''m2'' Downloaded] twoModelStore)
     = Some (utf16 ''m1'')"
proof -
  have sel: "selectedModelId twoModelStore = Some (utf16 ''m1'')"
    by (simp add: twoModelStore_def setModels_def Let_def js_or_def truthy_def initialState_def
        sampleModel_def utf16_def)
  have nt: "\<not> truthy (selectedModelId initialState)"
    by (simp add: initialState_def truthy_def)
  have t: "truthy (selectedModelId twoModelStore)"
    by (simp add: sel truthy_def utf16_def)
  have f: "firstInState Ready [sampleModel ''m1'' Ready, sampleModel ''m2'' NotDownloaded] 0"
    by (simp add: firstInState_def sampleModel_def)
  have n1: "noUsable Ready [sampleModel [] Ready, sampleModel ''r2'' Ready]"
    by (simp add: noUsable_find sampleModel_def utf16_def)
  have n2: "noUsable Downloaded [sampleModel [] Ready, sampleModel ''r2'' Ready]"
    by (simp add: noUsable_find sampleModel_def)
  have first: "selectedModelId
         (setModels [sampleModel ''m1'' Ready, sampleModel ''m2'' NotDownloaded] initialState)
       = Some (utf16 ''m1'')"
    using setModels_selection
      [of initialState "[sampleModel ''m1'' Ready, sampleModel ''m2'' NotDownloaded]" 0]
      nt f
    by (simp add: sampleModel_def utf16_def)
  have mixed: "selectedModelId (setModels [sampleModel [] Ready, sampleModel ''r2'' Ready] initialState)
       = None"
    using setModels_selection [of initialState "[sampleModel [] Ready, sampleModel ''r2'' Ready]"]
      nt n1 n2
    by (simp add: sampleModel_def utf16_def)
  have "selectedModelId (setModels [sampleModel ''m2'' Downloaded] twoModelStore)
        = selectedModelId twoModelStore"
    using setModels_selection [of twoModelStore "[sampleModel ''m2'' Downloaded]"] t
    by blast
  then show ?thesis using nt f first n1 n2 mixed t sel by simp
qed

section \<open>The generation guard\<close>

lemma trim_empty_iff: "trim s = [] \<longleftrightarrow> (\<forall>c\<in>set s. isWhiteSpace c)"
proof
  assume e: "trim s = []"
  show "\<forall>c\<in>set s. isWhiteSpace c"
  proof (rule ccontr)
    assume "\<not> (\<forall>c\<in>set s. isWhiteSpace c)"
    then have ne: "dropWhile isWhiteSpace s \<noteq> []" by simp
    then have "\<not> isWhiteSpace (hd (dropWhile isWhiteSpace s))" by (rule hd_dropWhile)
    moreover have "hd (dropWhile isWhiteSpace s) \<in> set (rev (dropWhile isWhiteSpace s))"
      using ne by simp
    ultimately have "dropWhile isWhiteSpace (rev (dropWhile isWhiteSpace s)) \<noteq> []"
      by auto
    then show False using e by (simp add: trim_def)
  qed
next
  assume "\<forall>c\<in>set s. isWhiteSpace c"
  then have d: "dropWhile isWhiteSpace s = []" by simp
  show "trim s = []" unfolding trim_def d by simp
qed

lemma begin_busy: "isGenerating s \<Longrightarrow> handleGenerate_begin pg s = (s, None)"
  by (simp add: handleGenerate_begin_def)

lemma begin_blank: "trim (currentPrompt s) = [] \<Longrightarrow> handleGenerate_begin pg s = (s, None)"
  by (simp add: handleGenerate_begin_def)

lemma begin_no_model: "\<not> truthy (selectedModelId s) \<Longrightarrow> handleGenerate_begin pg s = (s, None)"
  by (simp add: handleGenerate_begin_def)

lemma begin_no_image:
  "mode pg = Img2Img \<Longrightarrow> referenceImage pg = None \<Longrightarrow> handleGenerate_begin pg s = (s, None)"
  by (simp add: handleGenerate_begin_def)

lemma begin_Some:
  assumes "handleGenerate_begin pg s = (s1, Some call)"
  shows "trim (currentPrompt s) \<noteq> []" and "truthy (selectedModelId s)" and "\<not> isGenerating s"
    and "\<not> (mode pg = Img2Img \<and> referenceImage pg = None)"
    and "s1 = s\<lparr>isGenerating := True, generationError := None\<rparr>"
    and "callPrompt call = currentPrompt s" and "callModelId call = selectedModelId s"
  using assms
  by (auto simp: handleGenerate_begin_def setGenerating_def setGenerationError_def
      callPrompt_def callModelId_def
      split: if_splits option.splits GenerationMode.splits)

lemma begin_go:
  assumes "trim (currentPrompt s) \<noteq> []" and "truthy (selectedModelId s)" and "\<not> isGenerating s"
    and "\<not> (mode pg = Img2Img \<and> referenceImage pg = None)"
  shows "\<exists>call. handleGenerate_begin pg s = (s\<lparr>isGenerating := True, generationError := None\<rparr>, Some call)"
  using assms
  by (auto simp: handleGenerate_begin_def setGenerating_def setGenerationError_def truthy_def
      split: option.splits)

text \<open>The call depends on the page, the prompt and the selection only.\<close>

lemma begin_call_cong:
  assumes "handleGenerate_begin pg s = (s1, Some call)"
    and "currentPrompt s' = currentPrompt s" and "selectedModelId s' = selectedModelId s"
    and "\<not> isGenerating s'"
  shows "handleGenerate_begin pg s' = (s'\<lparr>isGenerating := True, generationError := None\<rparr>, Some call)"
  using assms
  by (auto simp: handleGenerate_begin_def setGenerating_def setGenerationError_def
      split: if_splits option.splits GenerationMode.splits)

lemma settle_fail:
  "handleGenerate_settle (Inl t) s = s\<lparr>generationError := Some (thrownMessage t), isGenerating := False\<rparr>"
  by (simp add: handleGenerate_settle_def setGenerating_def setGenerationError_def)

lemma settle_idle: "\<not> isGenerating (handleGenerate_settle outcome s)"
  by (simp add: handleGenerate_settle_def setGenerating_def)

lemma step_guard_inv: "guard_inv c \<Longrightarrow> guard_inv (step ev c)"
proof (cases ev)
  case (Generate pg)
  assume inv: "guard_inv c"
  show ?thesis
  proof (cases "handleGenerate_begin pg (store c)")
    case (Pair s' r)
    show ?thesis
    proof (cases r)
      case None
      then have "s' = store c" using Pair
        by (auto simp: handleGenerate_begin_def split: if_splits option.splits)
      then show ?thesis using inv Generate Pair None by (simp add: guard_inv_def)
    next
      case (Some call)
      then have "\<not> isGenerating (store c)" and "isGenerating s'"
        using begin_Some(3,5) [of pg "store c" s' call] Pair by simp_all
      then show ?thesis using inv Generate Pair Some by (simp add: guard_inv_def)
    qed
  qed
next
  case (Settled outcome)
  assume inv: "guard_inv c"
  then show ?thesis using Settled settle_idle [of outcome "store c"]
    by (cases "pending c") (auto simp: guard_inv_def)
qed (simp_all add: guard_inv_def setModels_def Let_def updateModelStatus_def setSelectedModel_def
      setCurrentPrompt_def setCurrentView_def setConnectionStatus_def setSystemInfo_def)

lemma run_guard_inv: "guard_inv c \<Longrightarrow> guard_inv (run evs c)"
  by (induction evs arbitrary: c) (simp_all add: step_guard_inv)

lemma initial_guard_inv: "guard_inv initialClient"
  by (simp add: guard_inv_def initialClient_def initialState_def)

text \<open>
  Claim C5. In every run of a client from its initial state at most one generation call is
  pending, and the flag \<^verbatim>\<open>isGenerating\<close> is set exactly while one is. A press of
  generate while the flag is set issues no call and leaves the store as it is. When a press
  issues a call, the flag was clear before and is set after, with the last error cleared;
  any further press before the call settles issues nothing; when the call fails, the flag
  is clear again and the failure is the last error, and the next press issues the call again.
\<close>

theorem generation_guard_single_flight:
  "length (pending (run evs initialClient)) \<le> 1
   \<and> isGenerating (store (run evs initialClient)) = (pending (run evs initialClient) \<noteq> [])
   \<and> (isGenerating s \<longrightarrow> handleGenerate_begin pg s = (s, None))
   \<and> (handleGenerate_begin pg s = (s1, Some call) \<longrightarrow>
        \<not> isGenerating s \<and> isGenerating s1 \<and> generationError s1 = None
        \<and> handleGenerate_begin pg' s1 = (s1, None)
        \<and> \<not> isGenerating (handleGenerate_settle (Inl t) s1)
        \<and> generationError (handleGenerate_settle (Inl t) s1) = Some (thrownMessage t)
        \<and> handleGenerate_begin pg (handleGenerate_settle (Inl t) s1) = (s1, Some call))"
proof -
  have inv: "guard_inv (run evs initialClient)"
    by (rule run_guard_inv [OF initial_guard_inv])
  have busy: "isGenerating s \<longrightarrow> handleGenerate_begin pg s = (s, None)"
    by (simp add: begin_busy)
  have scen: "\<not> isGenerating s \<and> isGenerating s1 \<and> generationError s1 = None
        \<and> handleGenerate_begin pg' s1 = (s1, None)
        \<and> \<not> isGenerating (handleGenerate_settle (Inl t) s1)
        \<and> generationError (handleGenerate_settle (Inl t) s1) = Some (thrownMessage t)
        \<and> handleGenerate_begin pg (handleGenerate_settle (Inl t) s1) = (s1, Some call)"
    if b: "handleGenerate_begin pg s = (s1, Some call)"
  proof -
    have s1: "s1 = s\<lparr>isGenerating := True, generationError := None\<rparr>"
      and idle: "\<not> isGenerating s"
      using begin_Some(3,5) [OF b] by simp_all
    have again: "handleGenerate_begin pg (handleGenerate_settle (Inl t) s1)
                 = ((handleGenerate_settle (Inl t) s1)\<lparr>isGenerating := True, generationError := None\<rparr>,
                    Some call)"
      by (rule begin_call_cong [OF b]) (simp_all add: settle_fail s1)
    have restored: "(handleGenerate_settle (Inl t) s1)\<lparr>isGenerating := True, generationError := None\<rparr> = s1"
      by (simp add: settle_fail s1)
    show ?thesis using idle again restored
      by (simp add: s1 begin_busy settle_fail)
  qed
  show ?thesis using inv busy scen by (simp add: guard_inv_def)
qed

lemma twoModelStore_selected: "selectedModelId twoModelStore = Some (utf16 ''m1'')"
  by (simp add: twoModelStore_def setModels_def Let_def js_or_def truthy_def initialState_def
      sampleModel_def utf16_def)

lemma twoModelStore_idle: "\<not> isGenerating twoModelStore"
  by (simp add: twoModelStore_def setModels_def Let_def initialState_def)

lemma trim_a_cat: "trim (utf16 ''a cat'') = utf16 ''a cat''"
  by (simp add: trim_def utf16_def isWhiteSpace_def)

lemma trim_blank: "trim (utf16 ''  '') = []"
  by (simp add: trim_def utf16_def isWhiteSpace_def)

lemma promptStore_begin:
  "handleGenerate_begin samplePage promptStore
   = (promptStore\<lparr>isGenerating := True, generationError := None\<rparr>, Some sampleCall)"
  by (simp add: handleGenerate_begin_def promptStore_def setCurrentPrompt_def trim_a_cat
      twoModelStore_selected twoModelStore_idle truthy_def samplePage_def sampleCall_def
      setGenerating_def setGenerationError_def seedArg_def)
    (simp add: utf16_def)

text \<open>
  Claim C5 on the sample store: a first press issues the call, a second press while it is
  pending issues none, and after the failure \<open>boom\<close> a press issues it again.
\<close>

theorem generation_guard_single_flight_witness:
  "handleGenerate_begin samplePage promptStore
     = (promptStore\<lparr>isGenerating := True, generationError := None\<rparr>, Some sampleCall)
   \<and> isGenerating (promptStore\<lparr>isGenerating := True, generationError := None\<rparr>)
   \<and> handleGenerate_begin samplePage (promptStore\<lparr>isGenerating := True, generationError := None\<rparr>)
     = (promptStore\<lparr>isGenerating := True, generationError := None\<rparr>, None)
   \<and> \<not> isGenerating
         (handleGenerate_settle (Inl (ErrorObject (utf16 ''boom'')))
            (promptStore\<lparr>isGenerating := True, generationError := None\<rparr>))
   \<and> generationError
         (handleGenerate_settle (Inl (ErrorObject (utf16 ''boom'')))
            (promptStore\<lparr>isGenerating := True, generationError := None\<rparr>))
     = Some (utf16 ''boom'')
   \<and> handleGenerate_begin samplePage
         (handleGenerate_settle (Inl (ErrorObject (utf16 ''boom'')))
            (promptStore\<lparr>isGenerating := True, generationError := None\<rparr>))
     = (promptStore\<lparr>isGenerating := True, generationError := None\<rparr>, Some sampleCall)
   \<and> length (pending (run [Generate samplePage, Generate samplePage]
                          \<lparr>store = promptStore, pending = []\<rparr>)) = 1"
proof -
  have r: "length (pending (run [Generate samplePage, Generate samplePage]
                          \<lparr>store = promptStore, pending = []\<rparr>)) = 1"
    by (simp add: promptStore_begin begin_busy)
  show ?thesis
    using generation_guard_single_flight
      [of "[]" "promptStore" samplePage
          "promptStore\<lparr>isGenerating := True, generationError := None\<rparr>" sampleCall samplePage
          "ErrorObject (utf16 ''boom'')"]
      promptStore_begin r
    by (simp add: thrownMessage_def)
qed

text \<open>
  Claim C10. A press of generate changes nothing and issues no call when the prompt is
  empty or consists of white space only, when no model is selected, or when the mode is
  img2img and no reference image is chosen; the button is disabled in these cases. Hence
  every call that is issued carries the prompt of the store, which has a character that is
  not white space, and the selected model id, which is not empty. The button is enabled
  exactly when a press issues a call.
\<close>

theorem generate_requires_prompt_and_model:
  "((\<forall>c\<in>set (currentPrompt s). isWhiteSpace c) \<or> selectedModelId s = None
      \<or> selectedModelId s = Some [] \<or> (mode pg = Img2Img \<and> referenceImage pg = None)
     \<longrightarrow> handleGenerate_begin pg s = (s, None) \<and> \<not> canGenerate pg s)
   \<and> (handleGenerate_begin pg s = (s', Some call) \<longrightarrow>
        callPrompt call = currentPrompt s
        \<and> (\<exists>c\<in>set (callPrompt call). \<not> isWhiteSpace c)
        \<and> callModelId call = selectedModelId s
        \<and> (\<exists>k. callModelId call = Some k \<and> k \<noteq> []))
   \<and> canGenerate pg s = (\<exists>call. snd (handleGenerate_begin pg s) = Some call)"
proof -
  have noop: "handleGenerate_begin pg s = (s, None) \<and> \<not> canGenerate pg s"
    if h: "(\<forall>c\<in>set (currentPrompt s). isWhiteSpace c) \<or> selectedModelId s = None
      \<or> selectedModelId s = Some [] \<or> (mode pg = Img2Img \<and> referenceImage pg = None)"
  proof -
    consider "trim (currentPrompt s) = []" | "\<not> truthy (selectedModelId s)"
      | "mode pg = Img2Img" "referenceImage pg = None"
      using h by (auto simp: trim_empty_iff truthy_def)
    then show ?thesis
    proof cases
      case 1
      then show ?thesis by (simp add: begin_blank canGenerate_def)
    next
      case 2
      then show ?thesis by (simp add: begin_no_model canGenerate_def)
    next
      case 3
      then show ?thesis by (simp add: begin_no_image canGenerate_def)
    qed
  qed
  have sent: "callPrompt call = currentPrompt s
        \<and> (\<exists>c\<in>set (callPrompt call). \<not> isWhiteSpace c)
        \<and> callModelId call = selectedModelId s
        \<and> (\<exists>k. callModelId call = Some k \<and> k \<noteq> [])"
    if b: "handleGenerate_begin pg s = (s', Some call)"
  proof -
    have "\<exists>c\<in>set (currentPrompt s). \<not> isWhiteSpace c"
      using begin_Some(1) [OF b] by (simp add: trim_empty_iff)
    moreover have "\<exists>k. selectedModelId s = Some k \<and> k \<noteq> []"
      using begin_Some(2) [OF b] by (cases "selectedModelId s") (simp_all add: truthy_def)
    ultimately show ?thesis
      using begin_Some(6,7) [OF b] by simp
  qed
  have can: "canGenerate pg s = (\<exists>call. snd (handleGenerate_begin pg s) = Some call)"
  proof
    assume c: "canGenerate pg s"
    then have "\<exists>call. handleGenerate_begin pg s
                 = (s\<lparr>isGenerating := True, generationError := None\<rparr>, Some call)"
      by (intro begin_go) (auto simp: canGenerate_def)
    then show "\<exists>call. snd (handleGenerate_begin pg s) = Some call" by auto
  next
    assume "\<exists>call. snd (handleGenerate_begin pg s) = Some call"
    then obtain call where "handleGenerate_begin pg s = (fst (handleGenerate_begin pg s), Some call)"
      by (metis prod.collapse)
    from begin_Some(1-4) [OF this] show "canGenerate pg s"
      by (cases "mode pg") (auto simp: canGenerate_def)
  qed
  show ?thesis using noop sent can by blast
qed

text \<open>
  Claim C10 on the sample stores: a prompt of two spaces issues nothing, the prompt
  \<open>a cat\<close> with \<open>m1\<close> selected issues a call with that prompt and that model.
\<close>

theorem generate_requires_prompt_and_model_witness:
  "handleGenerate_begin samplePage blankStore = (blankStore, None)
   \<and> \<not> canGenerate samplePage blankStore
   \<and> handleGenerate_begin samplePage promptStore
     = (promptStore\<lparr>isGenerating := True, generationError := None\<rparr>, Some sampleCall)
   \<and> callPrompt sampleCall = utf16 ''a cat''
   \<and> callModelId sampleCall = Some (utf16 ''m1'')"
proof -
  have blank: "\<forall>c\<in>set (currentPrompt blankStore). isWhiteSpace c"
    by (simp add: blankStore_def setCurrentPrompt_def utf16_def isWhiteSpace_def)
  have "handleGenerate_begin samplePage blankStore = (blankStore, None)
        \<and> \<not> canGenerate samplePage blankStore"
    using generate_requires_prompt_and_model [of blankStore samplePage] blank by blast
  moreover have "callPrompt sampleCall = currentPrompt promptStore
                 \<and> callModelId sampleCall = selectedModelId promptStore"
    using generate_requires_prompt_and_model
      [of promptStore samplePage "promptStore\<lparr>isGenerating := True, generationError := None\<rparr>"
          sampleCall]
      promptStore_begin
    by blast
  ultimately show ?thesis
    using promptStore_begin
    by (simp add: promptStore_def setCurrentPrompt_def twoModelStore_selected)
qed

section \<open>The push channel\<close>









lemma mount_twice:
  "mountEffect True (unmountEffect (mountEffect True initialHook))
   = \<lparr> sockets = ((\<lambda>_. None)
          (0 \<mapsto> \<lparr>readyState = CLOSING, sent = [],
                  closeCalls = [(1000, utf16 ''Component unmounting'')]\<rparr>))
          (1 \<mapsto> \<lparr>readyState = CONNECTING, sent = [], closeCalls = []\<rparr>),
       created = 2, wsRef = Some 1, reconnectTimeoutRef = None, mountedRef = True,
       hook_isConnected = False, hook_connectionError = None, timers = [], lastTimer = 0,
       fired = [] \<rparr>"
  by (simp add: mountEffect_def unmountEffect_def connect_def disconnect_def ws_close_def
      initialHook_def refReadyState_def Let_def)

lemma remountedHook_eq:
  "remountedHook
   = \<lparr> sockets = ((\<lambda>_. None)
          (0 \<mapsto> \<lparr>readyState = CLOSED, sent = [],
                  closeCalls = [(1000, utf16 ''Component unmounting'')]\<rparr>))
          (1 \<mapsto> \<lparr>readyState = CONNECTING, sent = [], closeCalls = []\<rparr>),
       created = 2, wsRef = None, reconnectTimeoutRef = Some 1, mountedRef = True,
       hook_isConnected = False, hook_connectionError = None, timers = [(1, 3000)],
       lastTimer = 1, fired = [OnDisconnect] \<rparr>"
  by (simp add: remountedHook_def mount_twice socketCloses_def setReadyState_def ws_onclose_def
      setTimeout_def Let_def fun_upd_twist)


lemma twoTimersHook_facts:
  "timers twoTimersHook = [(1, 3000), (2, 3000)]"
  "reconnectTimeoutRef twoTimersHook = Some 2"
  "mountedRef twoTimersHook"
  "wsRef twoTimersHook = None"
  "created twoTimersHook = 2"
  by (simp_all add: twoTimersHook_def remountedHook_eq socketCloses_def setReadyState_def
      ws_onclose_def setTimeout_def Let_def)




lemma onclose_unmounted: "\<not> mountedRef h \<Longrightarrow> ws_onclose interval code h = h"
  by (simp add: ws_onclose_def)

lemma onclose_normal:
  "timers (ws_onclose interval 1000 h) = timers h
   \<and> reconnectTimeoutRef (ws_onclose interval 1000 h) = reconnectTimeoutRef h
   \<and> lastTimer (ws_onclose interval 1000 h) = lastTimer h"
  by (simp add: ws_onclose_def Let_def)

lemma onclose_abnormal:
  assumes "code \<noteq> 1000" and "mountedRef h"
  shows "ws_onclose interval code h
         = h\<lparr> hook_isConnected := False, wsRef := None, fired := fired h @ [OnDisconnect],
               timers := timers h @ [(Suc (lastTimer h), interval)],
               lastTimer := Suc (lastTimer h),
               reconnectTimeoutRef := Some (Suc (lastTimer h)) \<rparr>"
  using assms by (simp add: ws_onclose_def setTimeout_def Let_def)

lemma clearTimeout_gone: "t \<notin> fst ` set (timers (clearTimeout t h))"
  by (auto simp: clearTimeout_def)

lemma ws_close_timers: "timers (ws_close k code reason h) = timers h"
  by (simp add: ws_close_def split: option.splits)

lemma disconnect_timers:
  "timers (disconnect h)
   = (case reconnectTimeoutRef h of
        None \<Rightarrow> timers h
      | Some t \<Rightarrow> if t \<noteq> 0 then filter (\<lambda>x. fst x \<noteq> t) (timers h) else timers h)"
  by (simp add: disconnect_def Let_def ws_close_timers clearTimeout_def split: option.splits)

lemma disconnect_ref:
  "reconnectTimeoutRef h = Some t \<Longrightarrow> t \<noteq> 0 \<Longrightarrow> reconnectTimeoutRef (disconnect h) = None"
  by (simp add: disconnect_def Let_def ws_close_def clearTimeout_def split: option.splits)

lemma disconnect_cancels:
  "reconnectTimeoutRef h = Some t \<Longrightarrow> t \<noteq> 0 \<Longrightarrow> t \<notin> fst ` set (timers (disconnect h))"
  by (auto simp: disconnect_timers)

lemma disconnect_close_call:
  assumes "wsRef h = Some k" and "sockets h k = Some w"
  shows "map_option closeCalls (sockets (disconnect h) k)
         = Some (closeCalls w @ [(1000, utf16 ''Component unmounting'')])"
    and "wsRef (disconnect h) = None"
  using assms
  by (simp_all add: disconnect_def Let_def ws_close_def clearTimeout_def split: option.splits)

lemma timer_fires_unmounted:
  "\<not> mountedRef h \<Longrightarrow> created (reconnectTimerFires t c h) = created h
     \<and> wsRef (reconnectTimerFires t c h) = wsRef h"
  by (simp add: reconnectTimerFires_def clearTimeout_def Let_def)

lemma timer_fires_reconnects:
  assumes "code \<noteq> 1000" and "mountedRef h"
  shows "created (reconnectTimerFires (Suc (lastTimer h)) True (ws_onclose interval code h))
         = Suc (created h)"
    and "refReadyState (reconnectTimerFires (Suc (lastTimer h)) True (ws_onclose interval code h))
         = Some CONNECTING"
    and "Suc (lastTimer h)
         \<notin> fst ` set (timers (reconnectTimerFires (Suc (lastTimer h)) True
                                 (ws_onclose interval code h)))"
  using assms
  by (auto simp: onclose_abnormal reconnectTimerFires_def clearTimeout_def Let_def connect_def
      refReadyState_def)

text \<open>
  What the hook does meet of the reconnect policy. A close event with code 1000 schedules no timer. A close event while the owner
  is not mounted does nothing. A close event with any other code while the owner is mounted
  schedules exactly one timer, with the reconnect interval as delay (3000 ms when the
  owner gives none), and keeps its handle; when that timer fires, one new socket is
  constructed; \<^verbatim>\<open>disconnect\<close> and the cleanup of the effect cancel it. In general
  \<^verbatim>\<open>disconnect\<close> and the cleanup cancel the timer whose handle the hook holds, a timer that
  fires after the cleanup constructs no socket, and \<^verbatim>\<open>disconnect\<close> closes the socket of
  the hook with code 1000.
\<close>

theorem reconnect_policy:
  "timers (ws_onclose interval 1000 h) = timers h
   \<and> reconnectTimeoutRef (ws_onclose interval 1000 h) = reconnectTimeoutRef h
   \<and> (\<not> mountedRef h \<longrightarrow> ws_onclose interval code h = h)
   \<and> (code \<noteq> 1000 \<and> mountedRef h \<longrightarrow>
        timers (ws_onclose interval code h) = timers h @ [(Suc (lastTimer h), interval)]
        \<and> reconnectTimeoutRef (ws_onclose interval code h) = Some (Suc (lastTimer h))
        \<and> created (reconnectTimerFires (Suc (lastTimer h)) True (ws_onclose interval code h))
            = Suc (created h)
        \<and> Suc (lastTimer h) \<notin> fst ` set (timers (disconnect (ws_onclose interval code h)))
        \<and> Suc (lastTimer h) \<notin> fst ` set (timers (unmountEffect (ws_onclose interval code h))))
   \<and> reconnectInterval None = 3000
   \<and> (reconnectTimeoutRef h = Some t \<and> t \<noteq> 0 \<longrightarrow>
        t \<notin> fst ` set (timers (disconnect h))
        \<and> t \<notin> fst ` set (timers (unmountEffect h))
        \<and> reconnectTimeoutRef (disconnect h) = None)
   \<and> (\<not> mountedRef h \<longrightarrow> created (reconnectTimerFires t c h) = created h)
   \<and> (wsRef h = Some k \<and> sockets h k = Some w \<longrightarrow>
        map_option closeCalls (sockets (disconnect h) k)
        = Some (closeCalls w @ [(1000, utf16 ''Component unmounting'')]))"
proof -
  have closing: "wsRef h = Some k \<and> sockets h k = Some w \<longrightarrow>
        map_option closeCalls (sockets (disconnect h) k)
        = Some (closeCalls w @ [(1000, utf16 ''Component unmounting'')])"
    using disconnect_close_call(1) by blast
  have normal: "timers (ws_onclose interval 1000 h) = timers h
      \<and> reconnectTimeoutRef (ws_onclose interval 1000 h) = reconnectTimeoutRef h"
    using onclose_normal by blast
  have unm: "\<not> mountedRef h \<longrightarrow> ws_onclose interval code h = h"
    by (simp add: onclose_unmounted)
  have cancel: "t \<notin> fst ` set (timers (disconnect g))
        \<and> t \<notin> fst ` set (timers (unmountEffect g))
        \<and> reconnectTimeoutRef (disconnect g) = None"
    if r: "reconnectTimeoutRef g = Some t" and z: "t \<noteq> 0" for g t
  proof -
    have "reconnectTimeoutRef (g\<lparr>mountedRef := False\<rparr>) = Some t" using r by simp
    then have "t \<notin> fst ` set (timers (unmountEffect g))"
      unfolding unmountEffect_def using z by (rule disconnect_cancels)
    then show ?thesis using disconnect_cancels [OF r z] disconnect_ref [OF r z] by simp
  qed
  have abn: "timers (ws_onclose interval code h) = timers h @ [(Suc (lastTimer h), interval)]
        \<and> reconnectTimeoutRef (ws_onclose interval code h) = Some (Suc (lastTimer h))
        \<and> created (reconnectTimerFires (Suc (lastTimer h)) True (ws_onclose interval code h))
            = Suc (created h)
        \<and> Suc (lastTimer h) \<notin> fst ` set (timers (disconnect (ws_onclose interval code h)))
        \<and> Suc (lastTimer h) \<notin> fst ` set (timers (unmountEffect (ws_onclose interval code h)))"
    if c: "code \<noteq> 1000" and m: "mountedRef h"
  proof -
    have r: "reconnectTimeoutRef (ws_onclose interval code h) = Some (Suc (lastTimer h))"
      and tm: "timers (ws_onclose interval code h) = timers h @ [(Suc (lastTimer h), interval)]"
      by (simp_all add: onclose_abnormal [OF c m])
    show ?thesis
      using r tm timer_fires_reconnects(1) [OF c m] cancel [OF r] by simp
  qed
  have dflt: "reconnectInterval None = 3000"
    by (simp add: reconnectInterval_def)
  have idle: "\<not> mountedRef h \<longrightarrow> created (reconnectTimerFires t c h) = created h"
    by (simp add: timer_fires_unmounted)
  show ?thesis using normal unm abn dflt cancel [of h t] idle closing by blast
qed

lemma openHook_mounted: "mountedRef openHook"
  by (simp add: openHook_def socketOpens_def setReadyState_def ws_onopen_def connectingHook_def
      mountEffect_def connect_def initialHook_def refReadyState_def Let_def)

lemma openHook_timers: "timers openHook = [] \<and> lastTimer openHook = 0 \<and> created openHook = 1"
  by (simp add: openHook_def socketOpens_def setReadyState_def ws_onopen_def connectingHook_def
      mountEffect_def connect_def initialHook_def refReadyState_def Let_def)

text \<open>
  The reconnect policy on the open sample hook: code 1000 schedules nothing, code 1006 schedules the
  one timer \<open>(1, 3000)\<close>, which reconnects when it fires and is cancelled by the cleanup.
\<close>

theorem reconnect_policy_witness:
  "mountedRef openHook
   \<and> reconnectInterval None = 3000
   \<and> timers (ws_onclose 3000 1000 openHook) = []
   \<and> timers (ws_onclose 3000 1006 openHook) = [(1, 3000)]
   \<and> reconnectTimeoutRef (ws_onclose 3000 1006 openHook) = Some 1
   \<and> created (reconnectTimerFires 1 True (ws_onclose 3000 1006 openHook)) = 2
   \<and> 1 \<notin> fst ` set (timers (unmountEffect (ws_onclose 3000 1006 openHook)))"
  using reconnect_policy [of 3000 openHook 1006 1 True 0]
    openHook_mounted openHook_timers
  by simp

text \<open>
  Claim C6 says that a pending reconnect is cancelled on teardown. \<^verbatim>\<open>ws.onclose\<close> stores
  the handle of the new timer over the one it holds without clearing that timer, and
  \<^verbatim>\<open>disconnect\<close> clears only the handle it holds. After the effect has run, been cleaned
  up and run again, the close events of both sockets (code 1006) leave two timers pending;
  the cleanup of the effect then cancels the second and leaves the first pending. The
  callback of that timer constructs no socket as long as the owner stays unmounted.
\<close>

theorem stale_reconnect_timer_survives_teardown:
  "timers twoTimersHook = [(1, 3000), (2, 3000)]
   \<and> reconnectTimeoutRef twoTimersHook = Some 2
   \<and> timers (unmountEffect twoTimersHook) = [(1, 3000)]
   \<and> created (reconnectTimerFires 1 True (unmountEffect twoTimersHook)) = created twoTimersHook"
proof -
  have u: "timers (unmountEffect twoTimersHook) = [(1, 3000)]"
    by (simp add: unmountEffect_def disconnect_timers twoTimersHook_facts)
  have um: "\<not> mountedRef (unmountEffect twoTimersHook)"
    by (simp add: unmountEffect_def disconnect_def Let_def clearTimeout_def twoTimersHook_facts)
  have uc: "created (unmountEffect twoTimersHook) = created twoTimersHook"
    by (simp add: unmountEffect_def disconnect_def Let_def clearTimeout_def twoTimersHook_facts)
  have a: "created (reconnectTimerFires 1 True (unmountEffect twoTimersHook))
           = created twoTimersHook"
    using timer_fires_unmounted [OF um, of 1 True] uc by simp
  show ?thesis using u a by (simp add: twoTimersHook_facts)
qed

end
